theory Spec2Isabelle
  imports Complex_Main "HOL-Library.Sublist"
begin

section \<open>Python values used by \<open>app.py\<close>\<close>

text \<open>
  An exception is a value: the name of its class (\<open>type(e).__name__\<close>) and its text
  (\<open>str(e)\<close>). A computation that may raise returns \<open>exn + 'a\<close>, \<open>Inl\<close> the raise.
\<close>

datatype exn = Exn (exn_kind: string) (exn_text: string)

subsection \<open>\<open>datetime.date\<close>\<close>

text \<open>
  A \<open>datetime.date\<close> is its proleptic Gregorian ordinal (\<open>date.toordinal()\<close>), between
  \<open>date.min\<close> (0001-01-01, ordinal 1) and \<open>date.max\<close> (9999-12-31, ordinal 3652059).
  Adding a \<open>timedelta\<close> of whole days raises \<open>OverflowError\<close> when the result leaves that
  range; \<open>date.weekday()\<close> is \<open>(toordinal() + 6) % 7\<close>, Monday 0 to Sunday 6.
\<close>

type_synonym date = int

definition date_min :: date where
  "date_min = 1"

definition date_max :: date where
  "date_max = 3652059"

definition valid_date :: "date \<Rightarrow> bool" where
  "valid_date d \<longleftrightarrow> date_min \<le> d \<and> d \<le> date_max"

definition date_overflow :: exn where
  "date_overflow = Exn ''OverflowError'' ''date value out of range''"

definition date_add_days :: "date \<Rightarrow> int \<Rightarrow> exn + date" where
  "date_add_days d n =
     (if date_min \<le> d + n \<and> d + n \<le> date_max then Inr (d + n) else Inl date_overflow)"

definition weekday :: "date \<Rightarrow> int" where
  "weekday d = (d + 6) mod 7"

subsection \<open>\<open>str\<close>\<close>

text \<open>
  Strings are lists of characters. \<open>str.lower\<close>, \<open>str.upper\<close> and \<open>str.strip\<close> are
  modelled on ASCII: the letters A to Z and a to z change case, and the characters that
  \<open>strip\<close> removes are the ASCII ones for which \<open>str.isspace\<close> holds (codes 9 to 13,
  28 to 32). \<open>x or d\<close> for an optional string \<open>x\<close> is \<open>d\<close> when \<open>x\<close> is \<open>None\<close> or empty.
\<close>

definition lower_char :: "char \<Rightarrow> char" where
  "lower_char c =
     (case map_of (zip ''ABCDEFGHIJKLMNOPQRSTUVWXYZ'' ''abcdefghijklmnopqrstuvwxyz'') c of
        Some l \<Rightarrow> l | None \<Rightarrow> c)"


definition lower :: "string \<Rightarrow> string" where
  "lower s = map lower_char s"




definition str_or :: "string option \<Rightarrow> string \<Rightarrow> string" where
  "str_or x d = (case x of None \<Rightarrow> d | Some s \<Rightarrow> if s = [] then d else s)"

text \<open>
  \<open>str(n)\<close> for a natural number, and \<open>str(d)\<close> for a date: \<open>date.isoformat()\<close>, that is
  \<open>"%04d-%02d-%02d"\<close> of the year, month and day that the standard library's
  \<open>_ord2ymd\<close> computes from the ordinal.
\<close>

fun show_nat :: "nat \<Rightarrow> string" where
  "show_nat n =
     (if n < 10 then [''0123456789'' ! n]
      else show_nat (n div 10) @ [''0123456789'' ! (n mod 10)])"

declare show_nat.simps [simp del]

definition zfill :: "nat \<Rightarrow> string \<Rightarrow> string" where
  "zfill w s = replicate (w - length s) (CHR ''0'') @ s"

definition DAYS_IN_MONTH :: "int list" where
  "DAYS_IN_MONTH = [- 1, 31, 28, 31, 30, 31, 30, 31, 31, 30, 31, 30, 31]"

definition DAYS_BEFORE_MONTH :: "int list" where
  "DAYS_BEFORE_MONTH = [- 1, 0, 31, 59, 90, 120, 151, 181, 212, 243, 273, 304, 334]"

definition ord2ymd :: "date \<Rightarrow> int \<times> int \<times> int" where
  "ord2ymd ordinal =
     (let n = ordinal - 1;
          n400 = n div 146097; n = n mod 146097;
          n100 = n div 36524; n = n mod 36524;
          n4 = n div 1461; n = n mod 1461;
          n1 = n div 365; n = n mod 365;
          year = n400 * 400 + 1 + n100 * 100 + n4 * 4 + n1
      in if n1 = 4 \<or> n100 = 4 then (year - 1, 12, 31)
         else
           (let leapyear = (n1 = 3 \<and> (n4 \<noteq> 24 \<or> n100 = 3));
                month = (n + 50) div 32;
                preceding = DAYS_BEFORE_MONTH ! nat month + (if month > 2 \<and> leapyear then 1 else 0)
            in if preceding > n then
                 (let month' = month - 1;
                      preceding' = preceding -
                        (DAYS_IN_MONTH ! nat month' + (if month' = 2 \<and> leapyear then 1 else 0))
                  in (year, month', n - preceding' + 1))
               else (year, month, n - preceding + 1)))"

definition date_str :: "date \<Rightarrow> string" where
  "date_str d =
     (case ord2ymd d of
        (y, m, dd) \<Rightarrow>
          zfill 4 (show_nat (nat y)) @ ''-'' @ zfill 2 (show_nat (nat m)) @ ''-'' @
          zfill 2 (show_nat (nat dd)))"

subsection \<open>pandas\<close>

text \<open>
  A timestamp is its wall-clock time in nanoseconds since 1970-01-01 00:00; a
  \<open>DatetimeIndex\<close> carries one time zone for all its entries (\<open>None\<close> when naive), and
  \<open>tz_localize(None)\<close> drops the zone and keeps the wall-clock times. \<open>floor("min")\<close> and
  \<open>normalize()\<close> round a naive timestamp down to the minute and to midnight;
  \<open>pd.Timestamp(d)\<close> is midnight of the date \<open>d\<close>. Timestamps are not bounded here.
  A float is \<open>None\<close> when it is NaN. A \<open>Series\<close> is its rows, the zone of its index and
  its name; a \<open>DataFrame\<close> is its index and its labelled columns, each as long as the
  index. Column labels are taken to be unique and of at most two levels, as the
  provider's are, so that selecting a label gives one column and the \<open>squeeze\<close> of
  lines 170-171 has nothing to collapse.
\<close>

type_synonym timestamp = int

definition minute_ns :: int where
  "minute_ns = 60000000000"

definition day_ns :: int where
  "day_ns = 86400000000000"

definition floor_to :: "int \<Rightarrow> timestamp \<Rightarrow> timestamp" where
  "floor_to unit t = t - t mod unit"

definition Timestamp :: "date \<Rightarrow> timestamp" where
  "Timestamp d = (d - 719163) * day_ns"

datatype column_key = Name string | Tuple "string list"

record series =
  s_items :: "(timestamp \<times> real option) list"
  s_tz :: "string option"
  s_name :: "column_key option"

record dataframe =
  df_index :: "timestamp list"
  df_tz :: "string option"
  df_multi :: bool
  df_columns :: "(column_key \<times> real option list) list"

definition empty_series :: series where
  "empty_series = \<lparr>s_items = [], s_tz = None, s_name = None\<rparr>"

definition s_index :: "series \<Rightarrow> timestamp list" where
  "s_index s = map fst (s_items s)"

definition s_empty :: "series \<Rightarrow> bool" where
  "s_empty s \<longleftrightarrow> s_items s = []"

definition df_get :: "dataframe \<Rightarrow> column_key \<Rightarrow> series \<Rightarrow> series" where
  "df_get df key dflt =
     (case map_of (df_columns df) key of
        None \<Rightarrow> dflt
      | Some vals \<Rightarrow> \<lparr>s_items = zip (df_index df) vals, s_tz = df_tz df, s_name = Some key\<rparr>)"

definition is_close_tuple :: "column_key \<Rightarrow> bool" where
  "is_close_tuple c = (case c of Tuple (f # rest) \<Rightarrow> f = ''Close'' | _ \<Rightarrow> False)"

definition dropna :: "series \<Rightarrow> series" where
  "dropna s = s\<lparr>s_items := filter (\<lambda>(t, v). v \<noteq> None) (s_items s)\<rparr>"

definition map_index :: "(timestamp \<Rightarrow> timestamp) \<Rightarrow> series \<Rightarrow> series" where
  "map_index f s = s\<lparr>s_items := map (\<lambda>(t, v). (f t, v)) (s_items s)\<rparr>"

definition select_rows :: "(timestamp \<Rightarrow> bool) \<Rightarrow> series \<Rightarrow> series" where
  "select_rows keep s = s\<lparr>s_items := filter (\<lambda>(t, v). keep t) (s_items s)\<rparr>"

definition to_frame :: "series \<Rightarrow> string \<Rightarrow> dataframe" where
  "to_frame s name =
     \<lparr>df_index = map fst (s_items s), df_tz = s_tz s, df_multi = False,
      df_columns = [(Name name, map snd (s_items s))]\<rparr>"

section \<open>Data helpers\<close>

text \<open>\<open>get_last_trading_day\<close> (lines 128-134): Saturday and Sunday go back to Friday.\<close>

definition get_last_trading_day :: "date \<Rightarrow> exn + date" where
  "get_last_trading_day d =
     (if weekday d = 5 then date_add_days d (- 1)
      else if weekday d = 6 then date_add_days d (- 2)
      else Inr d)"

text \<open>\<open>pick_interval\<close> (lines 136-147); the intervals are the provider's strings.\<close>

definition pick_interval :: "int \<Rightarrow> string" where
  "pick_interval days =
     (if days \<le> 2 then ''5m''
      else if days \<le> 10 then ''30m''
      else if days \<le> 60 then ''60m''
      else ''1d'')"

text \<open>\<open>RANGE_DAYS\<close> and \<open>compute_window_endpoints\<close> (lines 336-345).\<close>

definition RANGE_DAYS :: "(string \<times> int) list" where
  "RANGE_DAYS =
     [(''1d'', 1), (''1w'', 7), (''1m'', 30), (''3m'', 90), (''6m'', 180), (''1y'', 365),
      (''2y'', 730)]"

definition compute_window_endpoints :: "string option \<Rightarrow> date \<Rightarrow> exn + (date \<times> date)" where
  "compute_window_endpoints range_key end_date =
     (if lower (str_or range_key []) = ''1d'' then
        (case get_last_trading_day end_date of
           Inl e \<Rightarrow> Inl e
         | Inr end_date' \<Rightarrow>
             (case date_add_days end_date' (- 1) of
                Inl e \<Rightarrow> Inl e
              | Inr start_date \<Rightarrow> Inr (start_date, end_date')))
      else
        (let days = (case map_of RANGE_DAYS (lower (str_or range_key ''3m'')) of
                       Some n \<Rightarrow> n | None \<Rightarrow> 90)
         in case date_add_days end_date (- days) of
              Inl e \<Rightarrow> Inl e
            | Inr start_date \<Rightarrow> Inr (start_date, end_date)))"

section \<open>Fetching\<close>

text \<open>
  The provider (yfinance) is a parameter: what each of the three kinds of call returns,
  a frame (or \<open>None\<close>) or an exception. What \<open>fetch_history\<close> does besides returning is
  a list of events: the provider calls it made and the lines it printed to \<open>stderr\<close>.
\<close>

datatype request =
    Download_period string string string
  | Download_range string date date string
  | History_range string date date string

type_synonym provider = "request \<Rightarrow> exn + dataframe option"

datatype event = Call request | Stderr string

text \<open>\<open>to_close_series\<close> (lines 162-181), with the \<open>interval\<close> of the enclosing function.\<close>

definition to_close_series :: "string \<Rightarrow> dataframe option \<Rightarrow> series" where
  "to_close_series interval df_opt =
     (case df_opt of
        None \<Rightarrow> empty_series
      | Some df \<Rightarrow>
          if length (df_index df) = 0 then empty_series
          else
            (let s = (if df_multi df then
                        (case filter is_close_tuple (map fst (df_columns df)) of
                           c # cs \<Rightarrow> df_get df c empty_series
                         | [] \<Rightarrow> df_get df (Name ''Close'') empty_series)
                      else df_get df (Name ''Close'') empty_series);
                 s = dropna s
             in if s_empty s then s
                else
                  (let s = s\<lparr>s_tz := None\<rparr>;
                       s = (if interval = ''1d'' then map_index (floor_to day_ns) s
                            else map_index (floor_to minute_ns) s)
                   in s\<lparr>s_name := Some (Name ''Close'')\<rparr>)))"

text \<open>Lines 193-194 and 238-239: the rows of the most recent date that has bars.\<close>

definition last_session :: "series \<Rightarrow> series" where
  "last_session s =
     (let last = Max (set (map (floor_to day_ns) (s_index s)))
      in select_rows (\<lambda>t. floor_to day_ns t = last) s)"

definition arrow :: string where
  "arrow = [CHR 0xE2, CHR 0x86, CHR 0x92]"

text \<open>The line that each \<open>except\<close> prints: \<open>f"[fetch_history] ... error: {e}"\<close>.\<close>

definition error_line :: "string \<Rightarrow> exn \<Rightarrow> string" where
  "error_line what e = ''[fetch_history] '' @ what @ '' error: '' @ exn_text e"

definition fast_path :: "provider \<Rightarrow> string \<Rightarrow> string \<Rightarrow> int \<Rightarrow> series option \<times> event list" where
  "fast_path P ticker interval days =
     (if interval \<noteq> ''1d'' \<and> days = 1 then
        (let rq = Download_period ticker ''5d'' interval in
         case P rq of
           Inl e \<Rightarrow>
             (None, [Call rq, Stderr (error_line ''1D intraday session pull'' e)])
         | Inr d0 \<Rightarrow>
             (let s0 = to_close_series interval d0 in
              if \<not> s_empty s0 then
                (let s0 = last_session s0 in
                 if \<not> s_empty s0 then (Some s0, [Call rq]) else (None, [Call rq]))
              else (None, [Call rq])))
      else (None, []))"

definition try_download ::
  "provider \<Rightarrow> string \<Rightarrow> date \<Rightarrow> date \<Rightarrow> string \<Rightarrow> series option \<times> event list" where
  "try_download P ticker start end_inclusive interval =
     (let rq = Download_range ticker start end_inclusive interval in
      case P rq of
        Inl e \<Rightarrow> (None, [Call rq, Stderr (error_line ''download'' e)])
      | Inr d \<Rightarrow>
          (let s = to_close_series interval d in
           if \<not> s_empty s then (Some s, [Call rq]) else (None, [Call rq])))"

definition try_history ::
  "provider \<Rightarrow> string \<Rightarrow> date \<Rightarrow> date \<Rightarrow> string \<Rightarrow> series option \<times> event list" where
  "try_history P ticker start end_inclusive interval =
     (let rq = History_range ticker start end_inclusive interval in
      case P rq of
        Inl e \<Rightarrow> (None, [Call rq, Stderr (error_line ''history'' e)])
      | Inr h \<Rightarrow>
          (let s = to_close_series interval h in
           if \<not> s_empty s then (Some s, [Call rq]) else (None, [Call rq])))"

definition period_fallback ::
  "provider \<Rightarrow> string \<Rightarrow> date \<Rightarrow> date \<Rightarrow> string \<Rightarrow> int \<Rightarrow> series option \<times> event list" where
  "period_fallback P ticker start end_inclusive interval days =
     (if interval \<noteq> ''1d'' then
        (let period = (if days \<le> 7 then ''7d'' else ''30d'');
             rq = Download_period ticker period interval
         in case P rq of
              Inl e \<Rightarrow>
                (None, [Call rq, Stderr (error_line ''intraday period fallback'' e)])
            | Inr d2 \<Rightarrow>
                (let s2 = to_close_series interval d2 in
                 if \<not> s_empty s2 then
                   (if days = 1 then
                      (let s2 = last_session s2 in
                       if \<not> s_empty s2 then (Some s2, [Call rq]) else (None, [Call rq]))
                    else
                      (let s2 = select_rows
                                  (\<lambda>t. Timestamp start \<le> t \<and> t < Timestamp end_inclusive) s2
                       in if \<not> s_empty s2 then (Some s2, [Call rq]) else (None, [Call rq])))
                 else (None, [Call rq])))
      else (None, []))"

definition no_data_line :: "string \<Rightarrow> date \<Rightarrow> date \<Rightarrow> string \<Rightarrow> string" where
  "no_data_line ticker start end interval =
     ''[fetch_history] no data for '' @ ticker @ '' '' @ date_str start @ arrow @ date_str end @
     '' (interval '' @ interval @ '')''"

text \<open>
  \<open>fetch_history\<close> (lines 149-252). The widening of \<open>end\<close> by a day (line 201) stands
  outside every \<open>try\<close>: when it overflows, the function raises.
\<close>

definition fetch_history ::
  "provider \<Rightarrow> string \<Rightarrow> date \<Rightarrow> date \<Rightarrow> (exn + series) \<times> event list" where
  "fetch_history P ticker start end =
     (let days = (if end - start = 0 then 1 else end - start);
          interval = pick_interval days
      in case fast_path P ticker interval days of
           (Some s0, ev0) \<Rightarrow> (Inr s0, ev0)
         | (None, ev0) \<Rightarrow>
             (case date_add_days end 1 of
                Inl e \<Rightarrow> (Inl e, ev0)
              | Inr end_inclusive \<Rightarrow>
                  (case try_download P ticker start end_inclusive interval of
                     (Some s, ev1) \<Rightarrow> (Inr s, ev0 @ ev1)
                   | (None, ev1) \<Rightarrow>
                       (case try_history P ticker start end_inclusive interval of
                          (Some s, ev2) \<Rightarrow> (Inr s, ev0 @ ev1 @ ev2)
                        | (None, ev2) \<Rightarrow>
                            (case period_fallback P ticker start end_inclusive interval days of
                               (Some s2, ev3) \<Rightarrow> (Inr s2, ev0 @ ev1 @ ev2 @ ev3)
                             | (None, ev3) \<Rightarrow>
                                 (Inr empty_series,
                                  ev0 @ ev1 @ ev2 @ ev3 @
                                  [Stderr (no_data_line ticker start end interval)]))))))"

section \<open>The chart and the callback\<close>

text \<open>
  A figure is its title and, when it plots a series, the trace and the axis settings
  that depend on the data. The placeholders \<open>go.Figure(layout=dict(title=...))\<close> have a
  title only.
\<close>

record plot =
  p_x :: "timestamp list"
  p_y :: "real option list"
  p_name :: string
  p_hovertemplate :: string
  p_tickformat :: string
  p_rangeslider_visible :: bool

record figure =
  fig_title :: string
  fig_plot :: "plot option"

text \<open>
  \<open>make_figure\<close> (lines 254-333). \<open>iloc[-1]\<close> on no rows raises \<open>IndexError\<close>. The span
  is \<open>int(total_seconds() // 86400)\<close>, computed on floats in the source and exactly here: the
  two agree on whether the span exceeds 60, the difference of two timestamps below
  \<open>2 ^ 53\<close> nanoseconds (104 days) being converted without rounding.
\<close>

definition make_figure :: "series \<Rightarrow> string \<Rightarrow> exn + figure" where
  "make_figure s ticker =
     (let dates = map fst (s_items s);
          is_daily_like = list_all (\<lambda>t. floor_to day_ns t = t) dates;
          dates = (if is_daily_like then map (floor_to day_ns) dates else dates)
      in if dates = [] then Inl (Exn ''IndexError'' ''single positional indexer is out-of-bounds'')
         else
           (let span_days = max 1 ((last dates - hd dates) div day_ns);
                has_intraday_time = list_ex (\<lambda>t. floor_to day_ns t \<noteq> t) dates;
                x_tickformat = (if has_intraday_time then ''%b %d, %H:%M''
                                else if span_days \<le> 120 then ''%b %d'' else ''%b %Y'');
                hover_fmt = (if has_intraday_time then ''%b %d, %Y %H:%M'' else ''%b %d, %Y'')
            in Inr \<lparr>fig_title = ticker @ '' Price Performance'',
                    fig_plot = Some
                      \<lparr>p_x = dates, p_y = map snd (s_items s), p_name = ticker @ '' Close'',
                       p_hovertemplate =
                         ''%{x|'' @ hover_fmt @ ''}<br>Close: $%{y:.2f}<extra></extra>'',
                       p_tickformat = x_tickformat,
                       p_rangeslider_visible = (span_days > 60)\<rparr>\<rparr>))"









section \<open>Predicates used in the statements\<close>

definition interval_unit :: "string \<Rightarrow> int" where
  "interval_unit interval = (if interval = ''1d'' then day_ns else minute_ns)"

definition no_missing :: "series \<Rightarrow> bool" where
  "no_missing s \<longleftrightarrow> list_all (\<lambda>(t, v). v \<noteq> None) (s_items s)"

definition floored :: "int \<Rightarrow> series \<Rightarrow> bool" where
  "floored unit s \<longleftrightarrow> list_all (\<lambda>t. floor_to unit t = t) (s_index s)"

definition strictly_increasing :: "timestamp list \<Rightarrow> bool" where
  "strictly_increasing ts \<longleftrightarrow> sorted_wrt (<) ts"

definition normalized :: "string \<Rightarrow> series \<Rightarrow> bool" where
  "normalized interval s \<longleftrightarrow>
     no_missing s \<and> s_tz s = None \<and> floored (interval_unit interval) s \<and>
     s_name s = Some (Name ''Close'')"


definition window_days :: "date \<Rightarrow> date \<Rightarrow> int" where
  "window_days start end = (if end - start = 0 then 1 else end - start)"






section \<open>Example inputs\<close>

text \<open>
  Two rows of 2024-03-05 within the same minute: the bar of 09:30:00 and a row stamped
  09:30:40, as a provider returns it for the bar that is still forming.
\<close>

definition frame_same_minute :: dataframe where
  "frame_same_minute =
     \<lparr>df_index = [1709631000000000000, 1709631040000000000], df_tz = None, df_multi = False,
      df_columns = [(Name ''Close'', [Some 1, Some 2])]\<rparr>"

text \<open>
  Five-minute bars of Monday 2024-03-04 (15:50, 15:55) and Tuesday 2024-03-05 (09:30,
  09:35) in the exchange's zone, with the provider's two-level columns, and the two
  Tuesday bars as a normalized series.
\<close>

definition frame_mon_tue :: dataframe where
  "frame_mon_tue =
     \<lparr>df_index = [1709567400000000000, 1709567700000000000, 1709631000000000000,
                  1709631300000000000],
      df_tz = Some ''America/New_York'', df_multi = True,
      df_columns =
        [(Tuple [''Open'', ''AAPL''], [Some 174, Some 175, Some 171, Some 170]),
         (Tuple [''Close'', ''AAPL''], [Some 175, Some 176, Some 170, Some 169])]\<rparr>"

definition tuesday_bars :: series where
  "tuesday_bars =
     \<lparr>s_items = [(1709631000000000000, Some 170), (1709631300000000000, Some 169)],
      s_tz = None, s_name = Some (Name ''Close'')\<rparr>"





text \<open>
  A frame whose only close price is missing, and the empty series that carries the name
  \<open>Close\<close>, which is what \<open>to_close_series\<close> returns for that frame; and a daily
  series of two rows, on a first and a last day.
\<close>

definition frame_all_missing :: dataframe where
  "frame_all_missing =
     \<lparr>df_index = [1709631000000000000], df_tz = None, df_multi = False,
      df_columns = [(Name ''Close'', [None])]\<rparr>"

definition empty_close :: series where
  "empty_close = \<lparr>s_items = [], s_tz = None, s_name = Some (Name ''Close'')\<rparr>"

definition two_days :: "date \<Rightarrow> date \<Rightarrow> series" where
  "two_days first_day last_day =
     \<lparr>s_items = [(Timestamp first_day, Some 170), (Timestamp last_day, Some 180)],
      s_tz = None, s_name = Some (Name ''Close'')\<rparr>"

section \<open>Properties of the data helpers\<close>

lemma weekday_range: "0 \<le> weekday d \<and> weekday d \<le> 6"
  by (simp add: weekday_def)

lemma saturday_not_first: "valid_date d \<Longrightarrow> weekday d = 5 \<Longrightarrow> date_min + 1 \<le> d"
  unfolding valid_date_def weekday_def date_min_def by presburger

lemma sunday_not_first: "valid_date d \<Longrightarrow> weekday d = 6 \<Longrightarrow> date_min + 2 \<le> d"
  unfolding valid_date_def weekday_def date_min_def by presburger

lemma get_last_trading_day_cases:
  assumes "valid_date d"
  shows "get_last_trading_day d =
           Inr (if weekday d = 5 then d - 1 else if weekday d = 6 then d - 2 else d)"
proof -
  have sat: "weekday d = 5 \<Longrightarrow> date_add_days d (- 1) = Inr (d - 1)"
    using assms saturday_not_first [of d]
    by (simp add: date_add_days_def valid_date_def)
  have sun: "weekday d = 6 \<Longrightarrow> date_add_days d (- 2) = Inr (d - 2)"
    using assms sunday_not_first [of d]
    by (simp add: date_add_days_def valid_date_def)
  show ?thesis
    using sat sun by (simp add: get_last_trading_day_def)
qed

lemma weekday_pred_saturday: "weekday d = 5 \<Longrightarrow> weekday (d - 1) = 4"
  unfolding weekday_def by presburger

lemma weekday_pred2_sunday: "weekday d = 6 \<Longrightarrow> weekday (d - 2) = 4"
  unfolding weekday_def by presburger

text \<open>
  C5. \<open>pick_interval\<close> returns \<open>5m\<close> (FiveMinute) exactly for \<open>days \<le> 2\<close>, \<open>30m\<close>
  (ThirtyMinute) exactly for \<open>2 < days \<le> 10\<close>, \<open>60m\<close> (SixtyMinute) exactly for
  \<open>10 < days \<le> 60\<close> and \<open>1d\<close> (Daily) exactly for \<open>60 < days\<close>; the boundary inputs
  2, 3, 10, 11, 60, 61 give 5m, 30m, 30m, 60m, 60m, 1d. It holds for every integer,
  so for every \<open>days \<ge> 1\<close>.
\<close>

theorem pick_interval_table:
  "(pick_interval days = ''5m'' \<longleftrightarrow> days \<le> 2) \<and>
   (pick_interval days = ''30m'' \<longleftrightarrow> 2 < days \<and> days \<le> 10) \<and>
   (pick_interval days = ''60m'' \<longleftrightarrow> 10 < days \<and> days \<le> 60) \<and>
   (pick_interval days = ''1d'' \<longleftrightarrow> 60 < days) \<and>
   pick_interval 2 = ''5m'' \<and> pick_interval 3 = ''30m'' \<and> pick_interval 10 = ''30m'' \<and>
   pick_interval 11 = ''60m'' \<and> pick_interval 60 = ''60m'' \<and> pick_interval 61 = ''1d''"
  by (simp add: pick_interval_def)

lemma last_trading_day_result:
  assumes "valid_date d"
  shows "\<exists>d'. get_last_trading_day d = Inr d' \<and> valid_date d' \<and>
              0 \<le> weekday d' \<and> weekday d' \<le> 4 \<and> d - 2 \<le> d' \<and> d' \<le> d \<and>
              get_last_trading_day d' = Inr d'"
proof -
  define d' where "d' = (if weekday d = 5 then d - 1 else if weekday d = 6 then d - 2 else d)"
  have res: "get_last_trading_day d = Inr d'"
    using assms by (simp add: get_last_trading_day_cases d'_def)
  have wd: "0 \<le> weekday d' \<and> weekday d' \<le> 4"
    using weekday_range [of d] weekday_pred_saturday [of d] weekday_pred2_sunday [of d]
    by (auto simp: d'_def)
  have near: "d - 2 \<le> d' \<and> d' \<le> d"
    by (simp add: d'_def)
  have valid: "valid_date d'"
    using assms saturday_not_first [of d] sunday_not_first [of d]
    by (auto simp: d'_def valid_date_def)
  have idem: "get_last_trading_day d' = Inr d'"
    using wd by (simp add: get_last_trading_day_def)
  show ?thesis
    using res wd near valid idem by blast
qed

lemma range_days_positive:
  "0 < (case map_of RANGE_DAYS k of Some n \<Rightarrow> n | None \<Rightarrow> 90)"
  by (simp add: RANGE_DAYS_def)

lemma compute_window_1d:
  assumes "lower (str_or rk []) = ''1d''" "get_last_trading_day d = Inr e"
  shows "compute_window_endpoints rk d =
           (if date_min < e \<and> e \<le> date_max + 1 then Inr (e - 1, e) else Inl date_overflow)"
  using assms by (auto simp: compute_window_endpoints_def date_add_days_def)

lemma compute_window_other:
  assumes "lower (str_or rk []) \<noteq> ''1d''"
  shows "\<exists>n>0. compute_window_endpoints rk d =
           (if date_min \<le> d - n \<and> d - n \<le> date_max then Inr (d - n, d)
            else Inl date_overflow)"
proof -
  define n where
    "n = (case map_of RANGE_DAYS (lower (str_or rk ''3m'')) of Some n \<Rightarrow> n | None \<Rightarrow> 90)"
  have "0 < n"
    unfolding n_def by (rule range_days_positive)
  moreover have "compute_window_endpoints rk d =
           (if date_min \<le> d - n \<and> d - n \<le> date_max then Inr (d - n, d)
            else Inl date_overflow)"
    using assms by (simp add: compute_window_endpoints_def date_add_days_def n_def Let_def)
  ultimately show ?thesis by blast
qed

text \<open>
  C10. For every date \<open>d\<close>, \<open>get_last_trading_day d\<close> returns (it does not raise) a
  weekday, Monday to Friday, at most 2 days before \<open>d\<close> and never after it, and applying
  the function to its result returns the result again.
\<close>

theorem get_last_trading_day_weekday_idem:
  assumes "valid_date d"
  shows "\<exists>d'. get_last_trading_day d = Inr d' \<and> valid_date d' \<and>
              0 \<le> weekday d' \<and> weekday d' \<le> 4 \<and> d - 2 \<le> d' \<and> d' \<le> d \<and>
              get_last_trading_day d' = Inr d'"
  using assms by (rule last_trading_day_result)

theorem get_last_trading_day_weekday_idem_witness:
  "valid_date 738892 \<and> weekday 738892 = 6 \<and>
   get_last_trading_day 738892 = Inr 738890 \<and> weekday 738890 = 4 \<and>
   get_last_trading_day 738890 = Inr 738890"
proof -
  have v: "valid_date 738892"
    by (simp add: valid_date_def date_min_def date_max_def)
  have "\<exists>d'. get_last_trading_day 738892 = Inr d' \<and> valid_date d' \<and>
              0 \<le> weekday d' \<and> weekday d' \<le> 4 \<and> 738892 - 2 \<le> d' \<and> d' \<le> 738892 \<and>
              get_last_trading_day d' = Inr d'"
    using get_last_trading_day_weekday_idem [OF v] .
  moreover have "get_last_trading_day 738892 = Inr 738890"
    by (simp add: get_last_trading_day_def weekday_def date_add_days_def date_min_def
        date_max_def)
  ultimately show ?thesis
    using v by (auto simp: weekday_def)
qed

text \<open>
  C4, as amended. For the keyword \<open>1d\<close> (in any case) and every reference date,
  \<open>compute_window_endpoints\<close> maps the reference date to the most recent weekday
  (Saturday back 1 day, Sunday back 2 days, weekdays unchanged) and returns that day
  as the end and the day before it as the start; the start does not exist only for the
  reference date 0001-01-01, where the function raises \<open>OverflowError\<close>. For every
  other keyword the function does not roll back: the end is the reference date as
  given, Saturday or Sunday included, and the start lies a positive number of days
  before it. The rollback for those keywords is the caller's: \<open>update_chart\<close> passes
  \<open>get_last_trading_day(today)\<close>, and planning from a date that was rolled back ends
  on that date for every keyword.
\<close>

theorem compute_window_endpoints_rollback:
  assumes "valid_date d"
  shows "get_last_trading_day d =
           Inr (if weekday d = 5 then d - 1 else if weekday d = 6 then d - 2 else d) \<and>
         (lower (str_or rk []) = ''1d'' \<longrightarrow>
            (\<exists>e. get_last_trading_day d = Inr e \<and>
                 compute_window_endpoints rk d =
                   (if date_min < e then Inr (e - 1, e) else Inl date_overflow))) \<and>
         (lower (str_or rk []) \<noteq> ''1d'' \<longrightarrow>
            (\<exists>n>0. compute_window_endpoints rk d =
                   (if date_min \<le> d - n then Inr (d - n, d) else Inl date_overflow))) \<and>
         (\<forall>e start end. get_last_trading_day d = Inr e \<longrightarrow>
            compute_window_endpoints rk e = Inr (start, end) \<longrightarrow> end = e)"
proof -
  obtain e where e: "get_last_trading_day d = Inr e" "valid_date e"
    "get_last_trading_day e = Inr e"
    using last_trading_day_result [OF assms] by blast
  have one: "lower (str_or rk []) = ''1d'' \<Longrightarrow>
      compute_window_endpoints rk d =
        (if date_min < e then Inr (e - 1, e) else Inl date_overflow)"
    using compute_window_1d [of rk d e] e by (simp add: valid_date_def)
  have other: "lower (str_or rk []) \<noteq> ''1d'' \<Longrightarrow>
      \<exists>n>0. compute_window_endpoints rk d =
                   (if date_min \<le> d - n then Inr (d - n, d) else Inl date_overflow)"
  proof -
    assume a: "lower (str_or rk []) \<noteq> ''1d''"
    obtain n where n: "0 < n" "compute_window_endpoints rk d =
           (if date_min \<le> d - n \<and> d - n \<le> date_max then Inr (d - n, d)
            else Inl date_overflow)"
      using compute_window_other [OF a, of d] by blast
    have "d - n \<le> date_max"
      using assms n(1) by (simp add: valid_date_def)
    then show ?thesis
      using n by auto
  qed
  have comp: "compute_window_endpoints rk e = Inr (start, end) \<Longrightarrow> end = e" for start "end"
  proof (cases "lower (str_or rk []) = ''1d''")
    case True
    assume "compute_window_endpoints rk e = Inr (start, end)"
    then show ?thesis
      using compute_window_1d [OF True e(3)] by (auto split: if_splits)
  next
    case False
    assume r: "compute_window_endpoints rk e = Inr (start, end)"
    obtain n where "compute_window_endpoints rk e =
           (if date_min \<le> e - n \<and> e - n \<le> date_max then Inr (e - n, e)
            else Inl date_overflow)"
      using compute_window_other [OF False, of e] by blast
    with r show ?thesis
      by (auto split: if_splits)
  qed
  show ?thesis
    using e(1) one other comp get_last_trading_day_cases [OF assms] by auto
qed

theorem compute_window_endpoints_rollback_witness:
  "valid_date 738891 \<and> weekday 738891 = 5 \<and>
   get_last_trading_day 738891 = Inr 738890 \<and>
   compute_window_endpoints (Some ''1D'') 738891 = Inr (738889, 738890) \<and>
   compute_window_endpoints (Some ''1w'') 738890 = Inr (738883, 738890)"
proof -
  have v: "valid_date 738891"
    by (simp add: valid_date_def date_min_def date_max_def)
  have k: "lower (str_or (Some ''1D'') []) = ''1d''"
    by (simp add: lower_def lower_char_def str_or_def)
  have w: "weekday 738891 = 5"
    by (simp add: weekday_def)
  have g: "get_last_trading_day 738891 = Inr 738890"
    using compute_window_endpoints_rollback [OF v, of "Some ''1D''"] w by simp
  have c: "compute_window_endpoints (Some ''1D'') 738891 = Inr (738889, 738890)"
    using compute_window_endpoints_rollback [OF v, of "Some ''1D''"] k g
    by (simp add: date_min_def)
  have o: "compute_window_endpoints (Some ''1w'') 738890 = Inr (738883, 738890)"
    by (simp add: compute_window_endpoints_def lower_def lower_char_def str_or_def
        RANGE_DAYS_def date_add_days_def date_min_def date_max_def)
  show ?thesis
    using v w g c o by simp
qed

text \<open>
  C4 as stated fails for the keywords other than \<open>1d\<close>: 2024-01-06 (ordinal 738891) is
  a Saturday, its last trading day is Friday 2024-01-05 (738890), and for \<open>1w\<close> the
  planner returns the window that ends on the Saturday itself.
\<close>

theorem compute_window_endpoints_no_rollback_counterexample:
  "weekday 738891 = 5 \<and> get_last_trading_day 738891 = Inr 738890 \<and>
   compute_window_endpoints (Some ''1w'') 738891 = Inr (738884, 738891)"
  by (simp add: compute_window_endpoints_def lower_def lower_char_def str_or_def
        RANGE_DAYS_def date_add_days_def date_min_def date_max_def weekday_def
        get_last_trading_day_def)

section \<open>Properties of the fetcher\<close>

lemma floor_to_idem: "floor_to u (floor_to u t) = floor_to u t"
  by (simp add: floor_to_def)

lemma s_empty_select_rows_fields:
  "s_tz (select_rows k s) = s_tz s" "s_name (select_rows k s) = s_name s"
  "s_items (select_rows k s) = filter (\<lambda>(t, v). k t) (s_items s)"
  by (simp_all add: select_rows_def)

lemma to_close_series_normalized:
  assumes "\<not> s_empty (to_close_series iv d)"
  shows "normalized iv (to_close_series iv d)"
proof (cases d)
  case None
  with assms show ?thesis by (simp add: to_close_series_def empty_series_def s_empty_def)
next
  case (Some df)
  define sel where "sel = (if df_multi df then
                        (case filter is_close_tuple (map fst (df_columns df)) of
                           c # cs \<Rightarrow> df_get df c empty_series
                         | [] \<Rightarrow> df_get df (Name ''Close'') empty_series)
                      else df_get df (Name ''Close'') empty_series)"
  have ne: "\<not> s_empty (dropna sel)" "df_index df \<noteq> []"
    using assms Some
    by (auto simp: to_close_series_def Let_def sel_def s_empty_def empty_series_def split: if_splits)
  have eq: "to_close_series iv d =
      (map_index (floor_to (interval_unit iv)) ((dropna sel)\<lparr>s_tz := None\<rparr>))\<lparr>s_name := Some (Name ''Close'')\<rparr>"
    using ne Some by (simp add: to_close_series_def Let_def sel_def interval_unit_def)
  show ?thesis
    unfolding eq normalized_def no_missing_def floored_def s_index_def
    by (auto simp: map_index_def dropna_def list_all_iff floor_to_idem)
qed

lemma normalized_select_rows: "normalized iv s \<Longrightarrow> normalized iv (select_rows k s)"
  by (auto simp: normalized_def no_missing_def floored_def s_index_def select_rows_def list_all_iff)

lemma normalized_last_session: "normalized iv s \<Longrightarrow> normalized iv (last_session s)"
  by (simp add: last_session_def Let_def normalized_select_rows)

lemma fast_path_Some:
  assumes "fast_path P t iv days = (Some s, ev)"
  shows "iv \<noteq> ''1d''" "days = 1"
    "\<exists>d0. P (Download_period t ''5d'' iv) = Inr d0 \<and> \<not> s_empty (to_close_series iv d0) \<and>
          s = last_session (to_close_series iv d0)"
    "\<not> s_empty s" "ev = [Call (Download_period t ''5d'' iv)]"
  using assms
  by (auto simp: fast_path_def Let_def split: if_splits sum.splits)

lemma try_download_Some:
  assumes "try_download P t start ei iv = (Some s, ev)"
  shows "\<exists>d. P (Download_range t start ei iv) = Inr d \<and> s = to_close_series iv d"
    "\<not> s_empty s" "ev = [Call (Download_range t start ei iv)]"
  using assms
  by (auto simp: try_download_def Let_def split: if_splits sum.splits)

lemma try_history_Some:
  assumes "try_history P t start ei iv = (Some s, ev)"
  shows "\<exists>d. P (History_range t start ei iv) = Inr d \<and> s = to_close_series iv d"
    "\<not> s_empty s" "ev = [Call (History_range t start ei iv)]"
  using assms
  by (auto simp: try_history_def Let_def split: if_splits sum.splits)

lemma period_fallback_Some:
  assumes "period_fallback P t start ei iv days = (Some s, ev)"
  shows "iv \<noteq> ''1d''"
    "\<exists>d2. P (Download_period t (if days \<le> 7 then ''7d'' else ''30d'') iv) = Inr d2 \<and>
          \<not> s_empty (to_close_series iv d2) \<and>
          s = (if days = 1 then last_session (to_close_series iv d2)
               else select_rows (\<lambda>t. Timestamp start \<le> t \<and> t < Timestamp ei)
                      (to_close_series iv d2))"
    "\<not> s_empty s" "ev = [Call (Download_period t (if days \<le> 7 then ''7d'' else ''30d'') iv)]"
  using assms
  by (auto simp: period_fallback_def Let_def split: if_splits sum.splits)

lemma date_add_one: "date_add_days end 1 = (if date_min \<le> end + 1 \<and> end + 1 \<le> date_max then Inr (end + 1) else Inl date_overflow)"
  by (simp add: date_add_days_def)

lemma fetch_history_cases:
  assumes "fetch_history P t start end = (r, ev)"
  obtains
    (fast) s where "fast_path P t (pick_interval (window_days start end)) (window_days start end) = (Some s, ev)"
      "r = Inr s"
  | (overflow) "fast_path P t (pick_interval (window_days start end)) (window_days start end) = (None, ev)"
      "date_add_days end 1 = Inl date_overflow" "r = Inl date_overflow"
  | (download) ev0 ev1 s where
      "fast_path P t (pick_interval (window_days start end)) (window_days start end) = (None, ev0)"
      "date_add_days end 1 = Inr (end + 1)"
      "try_download P t start (end + 1) (pick_interval (window_days start end)) = (Some s, ev1)"
      "r = Inr s" "ev = ev0 @ ev1"
  | (history) ev0 ev1 ev2 s where
      "fast_path P t (pick_interval (window_days start end)) (window_days start end) = (None, ev0)"
      "date_add_days end 1 = Inr (end + 1)"
      "try_download P t start (end + 1) (pick_interval (window_days start end)) = (None, ev1)"
      "try_history P t start (end + 1) (pick_interval (window_days start end)) = (Some s, ev2)"
      "r = Inr s" "ev = ev0 @ ev1 @ ev2"
  | (fallback) ev0 ev1 ev2 ev3 s where
      "fast_path P t (pick_interval (window_days start end)) (window_days start end) = (None, ev0)"
      "date_add_days end 1 = Inr (end + 1)"
      "try_download P t start (end + 1) (pick_interval (window_days start end)) = (None, ev1)"
      "try_history P t start (end + 1) (pick_interval (window_days start end)) = (None, ev2)"
      "period_fallback P t start (end + 1) (pick_interval (window_days start end)) (window_days start end) = (Some s, ev3)"
      "r = Inr s" "ev = ev0 @ ev1 @ ev2 @ ev3"
  | (exhausted) ev0 ev1 ev2 ev3 where
      "fast_path P t (pick_interval (window_days start end)) (window_days start end) = (None, ev0)"
      "date_add_days end 1 = Inr (end + 1)"
      "try_download P t start (end + 1) (pick_interval (window_days start end)) = (None, ev1)"
      "try_history P t start (end + 1) (pick_interval (window_days start end)) = (None, ev2)"
      "period_fallback P t start (end + 1) (pick_interval (window_days start end)) (window_days start end) = (None, ev3)"
      "r = Inr empty_series"
      "ev = ev0 @ ev1 @ ev2 @ ev3 @ [Stderr (no_data_line t start end (pick_interval (window_days start end)))]"
proof -
  define d where "d = window_days start end"
  define iv where "iv = pick_interval d"
  note folded = d_def [symmetric] iv_def [symmetric]
  have unfold: "fetch_history P t start end =
      (case fast_path P t iv d of
           (Some s0, ev0) \<Rightarrow> (Inr s0, ev0)
         | (None, ev0) \<Rightarrow>
             (case date_add_days end 1 of
                Inl e \<Rightarrow> (Inl e, ev0)
              | Inr end_inclusive \<Rightarrow>
                  (case try_download P t start end_inclusive iv of
                     (Some s, ev1) \<Rightarrow> (Inr s, ev0 @ ev1)
                   | (None, ev1) \<Rightarrow>
                       (case try_history P t start end_inclusive iv of
                          (Some s, ev2) \<Rightarrow> (Inr s, ev0 @ ev1 @ ev2)
                        | (None, ev2) \<Rightarrow>
                            (case period_fallback P t start end_inclusive iv d of
                               (Some s2, ev3) \<Rightarrow> (Inr s2, ev0 @ ev1 @ ev2 @ ev3)
                             | (None, ev3) \<Rightarrow>
                                 (Inr empty_series,
                                  ev0 @ ev1 @ ev2 @ ev3 @
                                  [Stderr (no_data_line t start end iv)]))))))"
    unfolding fetch_history_def iv_def d_def window_days_def Let_def ..
  obtain r0 ev0 where f0: "fast_path P t iv d = (r0, ev0)" by (cases "fast_path P t iv d")
  show ?thesis
  proof (cases r0)
    case (Some s)
    then show ?thesis using assms f0 fast [of s] unfolding unfold folded by simp
  next
    case None
    note n0 = f0 [unfolded None]
    show ?thesis
    proof (cases "date_min \<le> end + 1 \<and> end + 1 \<le> date_max")
      case False
      then have a: "date_add_days end 1 = Inl date_overflow" by (simp add: date_add_one)
      show ?thesis using assms n0 a overflow unfolding unfold folded by simp
    next
      case True
      then have a: "date_add_days end 1 = Inr (end + 1)" by (simp add: date_add_one)
      obtain r1 ev1 where f1: "try_download P t start (end + 1) iv = (r1, ev1)"
        by (cases "try_download P t start (end + 1) iv")
      show ?thesis
      proof (cases r1)
        case (Some s)
        then show ?thesis using assms n0 a f1 download [of ev0 s ev1] unfolding unfold folded by simp
      next
        case None
        note n1 = f1 [unfolded None]
        obtain r2 ev2 where f2: "try_history P t start (end + 1) iv = (r2, ev2)"
          by (cases "try_history P t start (end + 1) iv")
        show ?thesis
        proof (cases r2)
          case (Some s)
          then show ?thesis using assms n0 a n1 f2 history [of ev0 ev1 s ev2] unfolding unfold folded by simp
        next
          case None
          note n2 = f2 [unfolded None]
          obtain r3 ev3 where f3: "period_fallback P t start (end + 1) iv d = (r3, ev3)"
            by (cases "period_fallback P t start (end + 1) iv d")
          show ?thesis
          proof (cases r3)
            case (Some s)
            then show ?thesis using assms n0 a n1 n2 f3 fallback [of ev0 ev1 ev2 s ev3] unfolding unfold folded by simp
          next
            case None
            note n3 = f3 [unfolded None]
            have res: "r = Inr empty_series"
              "ev = ev0 @ ev1 @ ev2 @ ev3 @ [Stderr (no_data_line t start end iv)]"
              using assms n0 a n1 n2 n3 unfolding unfold by simp_all
            show ?thesis
              using exhausted [of ev0 ev1 ev2 ev3] n0 a n1 n2 n3 res unfolding folded by blast
          qed
        qed
      qed
    qed
  qed
qed

lemma select_rows_all: "select_rows (\<lambda>t. True) s = s"
  by (simp add: select_rows_def)

lemma s_index_select_rows: "s_index (select_rows k s) = filter k (s_index s)"
  by (simp add: s_index_def select_rows_def filter_map comp_def case_prod_unfold)

lemma strictly_increasing_select_rows:
  "strictly_increasing (s_index s) \<Longrightarrow> strictly_increasing (s_index (select_rows k s))"
  by (simp add: strictly_increasing_def s_index_select_rows sorted_wrt_filter)

lemma strictly_increasing_distinct: "strictly_increasing ts \<Longrightarrow> distinct ts"
  unfolding strictly_increasing_def by (simp add: strict_sorted_iff)

lemma result_shapeI:
  assumes "Call rq \<in> set ev" "P rq = Inr d" "\<not> s_empty (to_close_series iv d)"
    "s = select_rows k (to_close_series iv d)"
  shows "\<exists>rq d k. Call rq \<in> set ev \<and> P rq = Inr d \<and> \<not> s_empty (to_close_series iv d) \<and>
           s = select_rows k (to_close_series iv d)"
  using assms by blast

lemma fetch_history_result_shape:
  assumes "fetch_history P t start end = (Inr s, ev)" "\<not> s_empty s"
  shows "\<exists>rq d k. Call rq \<in> set ev \<and> P rq = Inr d \<and>
           \<not> s_empty (to_close_series (pick_interval (window_days start end)) d) \<and>
           s = select_rows k (to_close_series (pick_interval (window_days start end)) d)"
  using assms(1)
proof (cases rule: fetch_history_cases)
  case (fast s')
  obtain d0 where d0: "P (Download_period t ''5d'' (pick_interval (window_days start end))) = Inr d0"
    "\<not> s_empty (to_close_series (pick_interval (window_days start end)) d0)"
    "s' = last_session (to_close_series (pick_interval (window_days start end)) d0)"
    using fast_path_Some(3) [OF fast(1)] by blast
  have ev: "Call (Download_period t ''5d'' (pick_interval (window_days start end))) \<in> set ev"
    using fast_path_Some(5) [OF fast(1)] by simp
  have "s = s'" using fast(2) by simp
  then show ?thesis
    using d0(3) by (intro result_shapeI [where P = P, OF ev d0(1) d0(2)]) (simp add: last_session_def Let_def)
next
  case overflow
  then show ?thesis by simp
next
  case (download ev0 ev1 s')
  obtain d where d: "P (Download_range t start (end + 1) (pick_interval (window_days start end))) = Inr d"
    "s' = to_close_series (pick_interval (window_days start end)) d"
    using try_download_Some(1) [OF download(3)] by blast
  have ev: "Call (Download_range t start (end + 1) (pick_interval (window_days start end))) \<in> set ev"
    using try_download_Some(3) [OF download(3)] download(5) by simp
  have ne: "\<not> s_empty (to_close_series (pick_interval (window_days start end)) d)"
    using try_download_Some(2) [OF download(3)] d(2) by simp
  have "s = s'" using download(4) by simp
  then show ?thesis
    using d(2) by (intro result_shapeI [where P = P and k = "\<lambda>t. True", OF ev d(1) ne]) (simp add: select_rows_all)
next
  case (history ev0 ev1 ev2 s')
  obtain d where d: "P (History_range t start (end + 1) (pick_interval (window_days start end))) = Inr d"
    "s' = to_close_series (pick_interval (window_days start end)) d"
    using try_history_Some(1) [OF history(4)] by blast
  have ev: "Call (History_range t start (end + 1) (pick_interval (window_days start end))) \<in> set ev"
    using try_history_Some(3) [OF history(4)] history(6) by simp
  have ne: "\<not> s_empty (to_close_series (pick_interval (window_days start end)) d)"
    using try_history_Some(2) [OF history(4)] d(2) by simp
  have "s = s'" using history(5) by simp
  then show ?thesis
    using d(2) by (intro result_shapeI [where P = P and k = "\<lambda>t. True", OF ev d(1) ne]) (simp add: select_rows_all)
next
  case (fallback ev0 ev1 ev2 ev3 s')
  obtain d2 where d2: "P (Download_period t (if window_days start end \<le> 7 then ''7d'' else ''30d'')
            (pick_interval (window_days start end))) = Inr d2"
    "\<not> s_empty (to_close_series (pick_interval (window_days start end)) d2)"
    "s' = (if window_days start end = 1
           then last_session (to_close_series (pick_interval (window_days start end)) d2)
           else select_rows (\<lambda>t. Timestamp start \<le> t \<and> t < Timestamp (end + 1))
                  (to_close_series (pick_interval (window_days start end)) d2))"
    using period_fallback_Some(2) [OF fallback(5)] by blast
  have ev: "Call (Download_period t (if window_days start end \<le> 7 then ''7d'' else ''30d'')
            (pick_interval (window_days start end))) \<in> set ev"
    using period_fallback_Some(4) [OF fallback(5)] fallback(7) by simp
  have "s = s'" using fallback(6) by simp
  then have "\<exists>k. s = select_rows k (to_close_series (pick_interval (window_days start end)) d2)"
    using d2(3) by (cases "window_days start end = 1") (auto simp: last_session_def Let_def)
  then obtain k where "s = select_rows k (to_close_series (pick_interval (window_days start end)) d2)"
    by blast
  then show ?thesis
    by (rule result_shapeI [where P = P, OF ev d2(1) d2(2)])
next
  case (exhausted ev0 ev1 ev2 ev3)
  then show ?thesis using assms(2) by (simp add: s_empty_def empty_series_def)
qed

text \<open>
  C1, as amended. Every non-empty series that \<open>fetch_history\<close> returns has no missing
  close price, timestamps without a time zone, each floored to the minute (to the day
  for the interval \<open>1d\<close>), and the name \<open>Close\<close>. The function neither sorts nor
  removes duplicates: the timestamps of the series are strictly increasing, and so
  without duplicates, whenever those of every normalized provider response are.
\<close>

theorem fetch_history_series_invariant:
  assumes "fetch_history P t start end = (Inr s, ev)" "\<not> s_empty s"
  shows "normalized (pick_interval (window_days start end)) s \<and>
         ((\<forall>rq d. P rq = Inr d \<longrightarrow>
              strictly_increasing
                (s_index (to_close_series (pick_interval (window_days start end)) d))) \<longrightarrow>
          strictly_increasing (s_index s) \<and> distinct (s_index s))"
proof -
  obtain rq d k where shape: "P rq = Inr d"
    "\<not> s_empty (to_close_series (pick_interval (window_days start end)) d)"
    "s = select_rows k (to_close_series (pick_interval (window_days start end)) d)"
    using fetch_history_result_shape [OF assms] by blast
  have "normalized (pick_interval (window_days start end)) s"
    unfolding shape(3) by (intro normalized_select_rows to_close_series_normalized shape(2))
  moreover have "strictly_increasing (s_index s) \<and> distinct (s_index s)"
    if "\<forall>rq d. P rq = Inr d \<longrightarrow>
              strictly_increasing
                (s_index (to_close_series (pick_interval (window_days start end)) d))"
  proof -
    have "strictly_increasing (s_index s)"
      unfolding shape(3) using that shape(1) by (intro strictly_increasing_select_rows) blast
    then show ?thesis by (simp add: strictly_increasing_distinct)
  qed
  ultimately show ?thesis by blast
qed

theorem fetch_history_series_invariant_witness:
  "fetch_history (\<lambda>rq. Inr (Some frame_mon_tue)) ''AAPL'' 738950 738950 =
     (Inr tuesday_bars, [Call (Download_period ''AAPL'' ''5d'' ''5m'')]) \<and>
   \<not> s_empty tuesday_bars \<and> normalized ''5m'' tuesday_bars \<and>
   strictly_increasing (s_index tuesday_bars) \<and> distinct (s_index tuesday_bars)"
proof -
  have run: "fetch_history (\<lambda>rq. Inr (Some frame_mon_tue)) ''AAPL'' 738950 738950 =
     (Inr tuesday_bars, [Call (Download_period ''AAPL'' ''5d'' ''5m'')])"
    by code_simp
  have ne: "\<not> s_empty tuesday_bars"
    by code_simp
  have iv: "pick_interval (window_days 738950 738950) = ''5m''"
    by code_simp
  have ord: "strictly_increasing (s_index (to_close_series
        (pick_interval (window_days 738950 738950)) (Some frame_mon_tue)))"
    by code_simp
  have ordered: "\<forall>rq d. (\<lambda>rq. Inr (Some frame_mon_tue)) rq = Inr d \<longrightarrow>
      strictly_increasing (s_index (to_close_series
        (pick_interval (window_days 738950 738950)) d))"
    using ord by auto
  show ?thesis
    using fetch_history_series_invariant [OF run ne] ordered run ne iv by simp
qed

text \<open>
  C1 as stated fails: the provider's two rows within one minute are floored to the same
  timestamp and both are returned.
\<close>

theorem fetch_history_duplicate_timestamps_counterexample:
  "fetch_history (\<lambda>rq. Inr (Some frame_same_minute)) ''AAPL'' 738946 738951 =
     (Inr \<lparr>s_items = [(1709631000000000000, Some 1), (1709631000000000000, Some 2)],
           s_tz = None, s_name = Some (Name ''Close'')\<rparr>,
      [Call (Download_range ''AAPL'' 738946 738952 ''30m'')]) \<and>
   \<not> distinct [1709631000000000000 :: timestamp, 1709631000000000000] \<and>
   \<not> strictly_increasing [1709631000000000000, 1709631000000000000]"
  by code_simp





























lemma fetch_history_fast:
  assumes "fast_path P t (pick_interval (window_days start end)) (window_days start end) =
             (Some s, ev)"
  shows "fetch_history P t start end = (Inr s, ev)"
  using assms by (simp add: fetch_history_def window_days_def Let_def)

lemma last_session_items:
  "s_items (last_session s) =
     filter (\<lambda>(ts, v). floor_to day_ns ts = Max (set (map (floor_to day_ns) (s_index s))))
       (s_items s)"
  by (simp add: last_session_def select_rows_def Let_def)

lemma last_session_nonempty:
  assumes "\<not> s_empty s"
  shows "\<not> s_empty (last_session s)"
proof -
  let ?days = "set (map (floor_to day_ns) (s_index s))"
  have "?days \<noteq> {}"
    using assms by (simp add: s_empty_def s_index_def)
  then have "Max ?days \<in> ?days"
    by (intro Max_in) simp_all
  then obtain ts v where "(ts, v) \<in> set (s_items s)" "floor_to day_ns ts = Max ?days"
    by (auto simp: s_index_def)
  then have "filter (\<lambda>(ts, v). floor_to day_ns ts = Max ?days) (s_items s) \<noteq> []"
    by (auto simp: filter_empty_conv)
  then show ?thesis
    by (simp add: s_empty_def last_session_items)
qed










text \<open>
  C6. For a one-day window (\<open>days = 1\<close>, interval \<open>5m\<close>), when the trailing-period
  response normalizes to a non-empty series, \<open>fetch_history\<close> returns after that one
  call the rows of the most recent calendar day present in the data, all of them and
  in their order: every returned timestamp falls on that day, and no timestamp of the
  data falls on a later one. For the Monday and Tuesday data and the window Tuesday to
  Tuesday, the two Tuesday bars are returned and no Monday bar.
\<close>

theorem fast_path_single_session:
  assumes "window_days start end = 1"
    "P (Download_period t ''5d'' ''5m'') = Inr d0"
    "\<not> s_empty (to_close_series ''5m'' d0)"
  shows "fetch_history P t start end =
           (Inr (last_session (to_close_series ''5m'' d0)),
            [Call (Download_period t ''5d'' ''5m'')]) \<and>
         \<not> s_empty (last_session (to_close_series ''5m'' d0)) \<and>
         s_items (last_session (to_close_series ''5m'' d0)) =
           filter (\<lambda>(ts, v). floor_to day_ns ts =
                     Max (set (map (floor_to day_ns) (s_index (to_close_series ''5m'' d0)))))
             (s_items (to_close_series ''5m'' d0)) \<and>
         (\<forall>ts \<in> set (s_index (last_session (to_close_series ''5m'' d0))).
            floor_to day_ns ts =
              Max (set (map (floor_to day_ns) (s_index (to_close_series ''5m'' d0))))) \<and>
         (\<forall>ts \<in> set (s_index (to_close_series ''5m'' d0)).
            floor_to day_ns ts \<le>
              Max (set (map (floor_to day_ns) (s_index (to_close_series ''5m'' d0)))))"
proof -
  let ?s0 = "to_close_series ''5m'' d0"
  have iv: "pick_interval (window_days start end) = ''5m''"
    using assms(1) by (simp add: pick_interval_def)
  have ne: "\<not> s_empty (last_session ?s0)"
    using assms(3) by (rule last_session_nonempty)
  have fp: "fast_path P t ''5m'' 1 =
              (Some (last_session ?s0), [Call (Download_period t ''5d'' ''5m'')])"
    using assms(2,3) ne by (simp add: fast_path_def Let_def)
  have run: "fetch_history P t start end =
           (Inr (last_session ?s0), [Call (Download_period t ''5d'' ''5m'')])"
    using fp by (intro fetch_history_fast) (simp add: assms(1) pick_interval_def)
  have on_day: "\<forall>ts \<in> set (s_index (last_session ?s0)).
            floor_to day_ns ts = Max (set (map (floor_to day_ns) (s_index ?s0)))"
    by (auto simp: s_index_def last_session_items)
  have latest: "\<forall>ts \<in> set (s_index ?s0).
            floor_to day_ns ts \<le> Max (set (map (floor_to day_ns) (s_index ?s0)))"
    by (auto intro: Max_ge)
  show ?thesis
    using run ne last_session_items [of ?s0] on_day latest by blast
qed

theorem fast_path_single_session_witness:
  "window_days 738950 738950 = 1 \<and>
   fetch_history (\<lambda>rq. Inr (Some frame_mon_tue)) ''AAPL'' 738950 738950 =
     (Inr (last_session (to_close_series ''5m'' (Some frame_mon_tue))),
      [Call (Download_period ''AAPL'' ''5d'' ''5m'')]) \<and>
   last_session (to_close_series ''5m'' (Some frame_mon_tue)) = tuesday_bars \<and>
   map (floor_to day_ns) (s_index (to_close_series ''5m'' (Some frame_mon_tue))) =
     [Timestamp 738949, Timestamp 738949, Timestamp 738950, Timestamp 738950] \<and>
   map (floor_to day_ns) (s_index tuesday_bars) = [Timestamp 738950, Timestamp 738950]"
proof -
  have d: "window_days 738950 738950 = 1"
    by (simp add: window_days_def)
  have p: "(\<lambda>rq. Inr (Some frame_mon_tue)) (Download_period ''AAPL'' ''5d'' ''5m'') =
             (Inr (Some frame_mon_tue) :: exn + dataframe option)"
    by simp
  have ne: "\<not> s_empty (to_close_series ''5m'' (Some frame_mon_tue))"
    by code_simp
  have l: "last_session (to_close_series ''5m'' (Some frame_mon_tue)) = tuesday_bars"
    by code_simp
  have m: "map (floor_to day_ns) (s_index (to_close_series ''5m'' (Some frame_mon_tue))) =
     [Timestamp 738949, Timestamp 738949, Timestamp 738950, Timestamp 738950]"
    by code_simp
  have t: "map (floor_to day_ns) (s_index tuesday_bars) = [Timestamp 738950, Timestamp 738950]"
    by code_simp
  show ?thesis
    using fast_path_single_session [OF d p ne] d l m t by simp
qed

section \<open>Properties of the normalization and of the chart\<close>

text \<open>
  A series is normalized again by viewing it as the frame with the one column
  \<open>Close\<close> (\<open>Series.to_frame\<close>, as \<open>make_figure\<close> does at line 255).
\<close>

lemma to_close_series_to_frame:
  assumes "normalized iv s" "\<not> s_empty s"
  shows "to_close_series iv (Some (to_frame s ''Close'')) = s"
proof -
  have items: "list_all (\<lambda>(t, v). v \<noteq> None) (s_items s)"
    and fl: "list_all (\<lambda>t. floor_to (interval_unit iv) t = t) (map fst (s_items s))"
    and tz: "s_tz s = None" and name: "s_name s = Some (Name ''Close'')"
    using assms(1) by (simp_all add: normalized_def no_missing_def floored_def s_index_def)
  have ne: "s_items s \<noteq> []"
    using assms(2) by (simp add: s_empty_def)
  have sel: "df_get (to_frame s ''Close'') (Name ''Close'') empty_series =
               \<lparr>s_items = s_items s, s_tz = s_tz s, s_name = Some (Name ''Close'')\<rparr>"
    by (simp add: df_get_def to_frame_def zip_map_fst_snd)
  have keep: "filter (\<lambda>(t, v). v \<noteq> None) (s_items s) = s_items s"
    using items by (simp add: list_all_iff filter_id_conv)
  have same: "map (\<lambda>(t, v). (floor_to (interval_unit iv) t, v)) (s_items s) = s_items s"
    using fl by (intro map_idI) (auto simp: list_all_iff)
  have "to_close_series iv (Some (to_frame s ''Close'')) =
          \<lparr>s_items = s_items s, s_tz = None, s_name = Some (Name ''Close'')\<rparr>"
    using ne keep same [unfolded interval_unit_def]
    by (cases "iv = ''1d''")
      (simp_all add: to_close_series_def sel to_frame_def [of s, THEN arg_cong [of _ _ df_multi]]
        to_frame_def [of s, THEN arg_cong [of _ _ df_index]] dropna_def s_empty_def
        map_index_def interval_unit_def Let_def)
  then show ?thesis
    using tz name by simp
qed

lemma to_close_series_to_frame_empty:
  assumes "s_empty s"
  shows "to_close_series iv (Some (to_frame s name)) = empty_series"
  using assms by (simp add: to_close_series_def to_frame_def s_empty_def)

text \<open>
  C8, as amended. Normalization is idempotent on the non-empty series: for every
  non-empty series in normalized form (no missing close values, timestamps without a
  zone and floored to the granularity of the interval, named \<open>Close\<close>), normalizing it
  again returns a series identical to it. For an empty series the result is the fresh
  empty series of line 164: it has the same rows (none) and the same zone, but no name.
\<close>

theorem to_close_series_idempotent:
  assumes "normalized iv s"
  shows "(\<not> s_empty s \<longrightarrow> to_close_series iv (Some (to_frame s ''Close'')) = s) \<and>
         (s_empty s \<longrightarrow> to_close_series iv (Some (to_frame s ''Close'')) = empty_series) \<and>
         s_items (to_close_series iv (Some (to_frame s ''Close''))) = s_items s \<and>
         s_tz (to_close_series iv (Some (to_frame s ''Close''))) = s_tz s"
proof (cases "s_empty s")
  case True
  then show ?thesis
    using assms
    by (simp add: to_close_series_to_frame_empty empty_series_def s_empty_def normalized_def)
next
  case False
  then show ?thesis
    using assms by (simp add: to_close_series_to_frame)
qed

theorem to_close_series_idempotent_witness:
  "normalized ''5m'' tuesday_bars \<and> \<not> s_empty tuesday_bars \<and>
   to_close_series ''5m'' (Some (to_frame tuesday_bars ''Close'')) = tuesday_bars"
proof -
  have n: "normalized ''5m'' tuesday_bars"
    by code_simp
  have e: "\<not> s_empty tuesday_bars"
    by code_simp
  show ?thesis
    using to_close_series_idempotent [OF n] n e by simp
qed

text \<open>
  C8 as stated fails on the empty series named \<open>Close\<close>, the result of normalizing a
  frame whose close prices are all missing: it is in normalized form, and normalizing
  it again returns the empty series without a name.
\<close>

theorem to_close_series_empty_label_counterexample:
  "to_close_series ''5m'' (Some frame_all_missing) = empty_close \<and>
   normalized ''5m'' empty_close \<and>
   to_close_series ''5m'' (Some (to_frame empty_close ''Close'')) = empty_series \<and>
   s_name empty_series = None \<and> s_name empty_close = Some (Name ''Close'') \<and>
   to_close_series ''5m'' (Some (to_frame empty_close ''Close'')) \<noteq> empty_close"
  by (simp add: normalized_def no_missing_def floored_def s_index_def empty_close_def
      to_close_series_def to_frame_def empty_series_def frame_all_missing_def df_get_def
      dropna_def s_empty_def)

lemma daily_like_dates:
  "list_all (\<lambda>t. floor_to day_ns t = t) dates \<Longrightarrow> map (floor_to day_ns) dates = dates"
  by (intro map_idI) (simp add: list_all_iff)

lemma span_exceeds_60:
  "60 < max 1 (diff div day_ns) \<longleftrightarrow> 61 * day_ns \<le> diff"
proof -
  define q where "q = diff div day_ns"
  define r where "r = diff mod day_ns"
  have split: "diff = day_ns * q + r"
    by (simp add: q_def r_def)
  have bounds: "0 \<le> r" "r < day_ns"
    by (simp_all add: r_def day_ns_def)
  have "60 < q \<longleftrightarrow> 61 * day_ns \<le> diff"
    using split bounds unfolding day_ns_def by arith
  then show ?thesis
    by (auto simp: q_def)
qed

text \<open>
  C9. For every non-empty series, \<open>make_figure\<close> returns a figure whose range slider
  is visible exactly when the span in whole days between the first and the last
  timestamp (floored, at least 1) exceeds 60, that is, exactly when the last timestamp
  is at least 61 days after the first. A series that spans exactly 60 days has no range
  slider, one that spans 61 days has it.
\<close>

theorem make_figure_rangeslider:
  assumes "\<not> s_empty s"
  shows "\<exists>fig pl. make_figure s t = Inr fig \<and> fig_plot fig = Some pl \<and>
           (p_rangeslider_visible pl \<longleftrightarrow>
              60 < max 1 ((last (s_index s) - hd (s_index s)) div day_ns)) \<and>
           (p_rangeslider_visible pl \<longleftrightarrow>
              61 * day_ns \<le> last (s_index s) - hd (s_index s))"
proof -
  define dates where "dates = map fst (s_items s)"
  define dates' where
    "dates' = (if list_all (\<lambda>t. floor_to day_ns t = t) dates
               then map (floor_to day_ns) dates else dates)"
  have same: "dates' = dates"
    by (simp add: dates'_def daily_like_dates)
  have ne: "dates \<noteq> []"
    using assms by (simp add: dates_def s_empty_def)
  obtain fig where fig: "make_figure s t = Inr fig"
    and pl: "\<exists>pl. fig_plot fig = Some pl \<and>
      (p_rangeslider_visible pl \<longleftrightarrow> 60 < max 1 ((last dates - hd dates) div day_ns))"
    using ne same
    by (simp add: make_figure_def Let_def dates_def [symmetric] dates'_def [symmetric])
  then show ?thesis
    using span_exceeds_60 [of "last dates - hd dates"]
    by (auto simp: s_index_def dates_def)
qed

theorem make_figure_rangeslider_witness:
  "\<not> s_empty (two_days 738946 739006) \<and> \<not> s_empty (two_days 738946 739007) \<and>
   last (s_index (two_days 738946 739006)) - hd (s_index (two_days 738946 739006)) =
     60 * day_ns \<and>
   last (s_index (two_days 738946 739007)) - hd (s_index (two_days 738946 739007)) =
     61 * day_ns \<and>
   (\<exists>fig pl. make_figure (two_days 738946 739006) ''AAPL'' = Inr fig \<and>
      fig_plot fig = Some pl \<and> \<not> p_rangeslider_visible pl) \<and>
   (\<exists>fig pl. make_figure (two_days 738946 739007) ''AAPL'' = Inr fig \<and>
      fig_plot fig = Some pl \<and> p_rangeslider_visible pl)"
proof -
  have ne: "\<not> s_empty (two_days 738946 739006)" "\<not> s_empty (two_days 738946 739007)"
    by (simp_all add: s_empty_def two_days_def)
  have d60: "last (s_index (two_days 738946 739006)) - hd (s_index (two_days 738946 739006)) =
     60 * day_ns"
    by (simp add: s_index_def two_days_def Timestamp_def)
  have d61: "last (s_index (two_days 738946 739007)) - hd (s_index (two_days 738946 739007)) =
     61 * day_ns"
    by (simp add: s_index_def two_days_def Timestamp_def)
  have pos: "\<not> 61 * day_ns \<le> 60 * day_ns"
    by (simp add: day_ns_def)
  have a: "\<exists>fig pl. make_figure (two_days 738946 739006) ''AAPL'' = Inr fig \<and>
      fig_plot fig = Some pl \<and> \<not> p_rangeslider_visible pl"
    using make_figure_rangeslider [OF ne(1), of "''AAPL''"] pos unfolding d60 by blast
  have b: "\<exists>fig pl. make_figure (two_days 738946 739007) ''AAPL'' = Inr fig \<and>
      fig_plot fig = Some pl \<and> p_rangeslider_visible pl"
    using make_figure_rangeslider [OF ne(2), of "''AAPL''"] unfolding d61 by blast
  show ?thesis
    using ne d60 d61 a b by blast
qed

section \<open>Properties of the callback\<close>













end
